theory Spec2Isabelle
  imports Main "HOL-Library.Sublist"
begin

section \<open>The report builder of \<^verbatim>\<open>src/tools/create_report.py\<close>\<close>

text \<open>
  The script builds a word-processing document from a text: it sets the font of the
  \<^verbatim>\<open>Normal\<close> style, cuts the text into segments and appends one paragraph per segment,
  saves the document and prints a confirmation line.

  \<^verbatim>\<open>
  doc = Document()
  doc.styles['Normal'].font.name = 'Arial'
  doc.styles['Normal'].font.size = Pt(11)

  for para in report.strip().split('\n\n'):
      p = doc.add_paragraph()
      p.add_run(para.strip())

  output_path = r"d:\automation Assignment\B9IS121_Report.docx"
  doc.save(output_path)
  print(f"Report written to: {output_path}")
  \<close>

  The text \<^verbatim>\<open>report\<close> and the path \<^verbatim>\<open>output_path\<close> are literals of the script; the model
  takes both as parameters, so that the properties are stated for every text.
\<close>

subsection \<open>Python strings\<close>

text \<open>
  A Python \<^verbatim>\<open>str\<close> is a sequence of Unicode code points, and \<^verbatim>\<open>len\<close>, \<^verbatim>\<open>strip\<close> and \<^verbatim>\<open>split\<close>
  work on code points. A code point is modelled by its number.
\<close>

type_synonym pystr = "nat list"

definition py_str :: "string \<Rightarrow> pystr" where
  \<comment> \<open>The Python string written as an (ASCII) literal.\<close>
  "py_str s = map of_char s"

definition py_isspace :: "nat \<Rightarrow> bool" where
  \<comment> \<open>The code points that \<^verbatim>\<open>str.strip()\<close> removes: those of \<^verbatim>\<open>str.isspace\<close>
      (tab to carriage return, the four separators 0x1C to 0x1F, space, NEL, no-break space
      and the Unicode space separators).\<close>
  "py_isspace c \<longleftrightarrow>
     (0x09 \<le> c \<and> c \<le> 0x0D) \<or> (0x1C \<le> c \<and> c \<le> 0x20) \<or> c = 0x85 \<or> c = 0xA0 \<or>
     c = 0x1680 \<or> (0x2000 \<le> c \<and> c \<le> 0x200A) \<or> c = 0x2028 \<or> c = 0x2029 \<or>
     c = 0x202F \<or> c = 0x205F \<or> c = 0x3000"

definition py_strip :: "pystr \<Rightarrow> pystr" where
  \<comment> \<open>\<^verbatim>\<open>s.strip()\<close>: the leading and the trailing whitespace removed.\<close>
  "py_strip s = rev (dropWhile py_isspace (rev (dropWhile py_isspace s)))"

text \<open>
  \<^verbatim>\<open>s.split(sep)\<close> scans from the left for occurrences of \<^verbatim>\<open>sep\<close> that do not overlap and
  returns the pieces between them, the empty ones included. \<open>cur\<close> is the piece read so
  far. An empty separator raises \<^verbatim>\<open>ValueError\<close>.
\<close>

function py_split_from :: "pystr \<Rightarrow> pystr \<Rightarrow> pystr \<Rightarrow> pystr list" where
  "py_split_from sep cur [] = [cur]"
| "py_split_from sep cur (c # cs) =
     (if sep \<noteq> [] \<and> prefix sep (c # cs)
      then cur # py_split_from sep [] (drop (length sep) (c # cs))
      else py_split_from sep (cur @ [c]) cs)"
  by pat_completeness auto
termination
  by (relation "measure (\<lambda>(sep, cur, s). length s)") auto

datatype error = ValueError | KeyError | IOError | SerializationError

definition py_split :: "pystr \<Rightarrow> pystr \<Rightarrow> error + pystr list" where
  "py_split s sep = (if sep = [] then Inl ValueError else Inr (py_split_from sep [] s))"

definition nl :: nat where
  \<comment> \<open>The line feed \<^verbatim>\<open>'\n'\<close>.\<close>
  "nl = 0x0A"

definition blank_line :: pystr where
  \<comment> \<open>The separator of the script, \<^verbatim>\<open>'\n\n'\<close>.\<close>
  "blank_line = [nl, nl]"

definition segments :: "pystr \<Rightarrow> pystr list" where
  \<comment> \<open>\<^verbatim>\<open>report.strip().split('\n\n')\<close>, the sequence the loop runs over.\<close>
  "segments report = py_split_from blank_line [] (py_strip report)"

subsection \<open>The document library\<close>

text \<open>
  \<^verbatim>\<open>Document\<close>, \<^verbatim>\<open>Pt\<close>, \<^verbatim>\<open>add_paragraph\<close>, \<^verbatim>\<open>add_run\<close> and \<^verbatim>\<open>save\<close> are imported from the
  \<^verbatim>\<open>docx\<close> package; the repository holds only the script that calls them. They are
  modelled on the data model of the specification: a document is a set of named styles
  and an ordered sequence of paragraphs, a paragraph an ordered sequence of runs. The
  library keeps the text of a run as XML, which decides what text a run can hold and
  what is read back from it; beyond that the encoding of a document as a file (a package
  of XML parts) is not modelled: a saved file is the document itself.
\<close>

record font =
  font_name :: "pystr option"
  font_size :: "nat option"

record run =
  run_text :: pystr
  run_font :: font

record paragraph_element =
  pstyle :: "pystr option"
  runs :: "run list"

record document =
  styles :: "pystr \<rightharpoonup> font"
  paragraphs :: "paragraph_element list"

definition Pt :: "nat \<Rightarrow> nat" where
  \<comment> \<open>A length given in points, in English Metric Units (12700 to the point).\<close>
  "Pt points = points * 12700"

definition unset :: font where
  \<comment> \<open>A font that sets neither family nor size: both are inherited.\<close>
  "unset = \<lparr>font_name = None, font_size = None\<rparr>"

definition Normal :: pystr where
  "Normal = py_str ''Normal''"

definition Arial :: pystr where
  "Arial = py_str ''Arial''"

definition Document :: document where
  \<comment> \<open>Modelled from the spec: \<^verbatim>\<open>Document()\<close> is a new document with the default style
      \<^verbatim>\<open>Normal\<close> and no paragraph. (The styles of the library's template that the script
      never names are left out.)\<close>
  "Document = \<lparr>styles = [Normal \<mapsto> unset], paragraphs = []\<rparr>"

definition set_style_font :: "pystr \<Rightarrow> (font \<Rightarrow> font) \<Rightarrow> document \<Rightarrow> error + document" where
  \<comment> \<open>Modelled from the spec: \<^verbatim>\<open>doc.styles[name].font.field = value\<close>; looking up a style
      that the document does not have raises \<^verbatim>\<open>KeyError\<close>.\<close>
  "set_style_font style upd d =
     (case styles d style of
        None \<Rightarrow> Inl KeyError
      | Some f \<Rightarrow> Inr (d\<lparr>styles := (styles d)(style \<mapsto> upd f)\<rparr>))"

definition add_paragraph :: "document \<Rightarrow> document \<times> nat" where
  \<comment> \<open>Modelled from the spec: \<^verbatim>\<open>doc.add_paragraph()\<close> appends an empty paragraph in the
      default style and returns it. The returned object is a handle on the paragraph inside
      the document: here its position.\<close>
  "add_paragraph d =
     (d\<lparr>paragraphs := paragraphs d @ [\<lparr>pstyle = None, runs = []\<rparr>]\<rparr>, length (paragraphs d))"

definition cr :: nat where
  \<comment> \<open>The carriage return \<^verbatim>\<open>'\r'\<close>.\<close>
  "cr = 0x0D"

definition xml_char :: "nat \<Rightarrow> bool" where
  \<comment> \<open>Modelled from the spec: the code points that "the underlying document library can
      encode", the characters of XML 1.0: tab, line feed, carriage return, and
      everything from the space on but the surrogates, 0xFFFE and 0xFFFF.\<close>
  "xml_char c \<longleftrightarrow>
     c = 0x09 \<or> c = 0x0A \<or> c = 0x0D \<or> (0x20 \<le> c \<and> c \<le> 0xD7FF) \<or>
     (0xE000 \<le> c \<and> c \<le> 0xFFFD) \<or> (0x10000 \<le> c \<and> c \<le> 0x10FFFF)"

definition read_back :: "pystr \<Rightarrow> pystr" where
  \<comment> \<open>Modelled from the spec: what is read back from a run that was given a text. The
      library stores a line feed and a carriage return alike as a line break, which reads
      back as a line feed; every other character, the tab too, is read back as it is.\<close>
  "read_back t = map (\<lambda>c. if c = cr then nl else c) t"

definition add_run :: "nat \<Rightarrow> pystr \<Rightarrow> document \<Rightarrow> error + document" where
  \<comment> \<open>Modelled from the spec: \<^verbatim>\<open>p.add_run(text)\<close> appends a run with that text and no
      formatting of its own to the paragraph \<open>p\<close>, which changes the document holding it.
      The library "cannot encode the content" when the text has a character that is not
      an XML character: the call then raises \<^verbatim>\<open>ValueError\<close>. \<open>run_text\<close> is the text as it
      is read back from the run. A handle is always one that \<open>add_paragraph\<close> returned,
      so it is in range.\<close>
  "add_run p t d =
     (if list_all xml_char t
      then (if p < length (paragraphs d)
            then Inr (d\<lparr>paragraphs := (paragraphs d)
                   [p := (paragraphs d ! p)\<lparr>runs := runs (paragraphs d ! p) @
                      [\<lparr>run_text = read_back t, run_font = unset\<rparr>]\<rparr>]\<rparr>)
            else Inr d)
      else Inl ValueError)"

definition paragraph_text :: "paragraph_element \<Rightarrow> pystr" where
  \<comment> \<open>Modelled from the spec: the text of a paragraph, as read back from a document, is
      the text of its runs in order.\<close>
  "paragraph_text p = concat (map run_text (runs p))"

definition shown_font :: "document \<Rightarrow> paragraph_element \<Rightarrow> run \<Rightarrow> font option" where
  \<comment> \<open>Modelled from the spec: the font a run of a paragraph is shown in, which the
      library leaves to the "document-wide default style". What the run sets itself wins;
      the rest comes from the paragraph's style, which is \<^verbatim>\<open>Normal\<close> for a paragraph that
      names none.\<close>
  "shown_font d p r =
     (case styles d (case pstyle p of None \<Rightarrow> Normal | Some s \<Rightarrow> s) of
        None \<Rightarrow> None
      | Some sf \<Rightarrow> Some
          \<lparr>font_name = (case font_name (run_font r) of None \<Rightarrow> font_name sf | Some n \<Rightarrow> Some n),
           font_size = (case font_size (run_font r) of None \<Rightarrow> font_size sf | Some z \<Rightarrow> Some z)\<rparr>)"

definition encodable :: "document \<Rightarrow> bool" where
  \<comment> \<open>Modelled from the spec: the content of the document can be encoded, every run
      holding XML characters only.\<close>
  "encodable d =
     list_all (\<lambda>p. list_all (\<lambda>r. list_all xml_char (run_text r)) (runs p)) (paragraphs d)"

record filesystem =
  files :: "pystr \<rightharpoonup> document"
  parent_writable :: "pystr \<Rightarrow> bool"
  target_writable :: "pystr \<Rightarrow> bool"

definition save :: "document \<Rightarrow> pystr \<Rightarrow> filesystem \<Rightarrow> (error + unit) \<times> filesystem" where
  \<comment> \<open>Modelled from the spec: \<^verbatim>\<open>doc.save(path)\<close> "fails with IOError if the output path's
      parent directory does not exist or is not writable", as it does for every path that
      cannot be opened for writing, and "fails with SerializationError if the underlying
      document library cannot encode the content"; a save that fails "produces no file".
      Otherwise it writes the document to the path, over any file already there.
      \<open>parent_writable fs path\<close> says that the parent directory of \<open>path\<close> exists and
      can be written to, \<open>target_writable fs path\<close> that \<open>path\<close> itself is neither a
      directory nor a file that cannot be written over. The file is opened before the
      content is encoded.\<close>
  "save d path fs =
     (if parent_writable fs path \<and> target_writable fs path
      then (if encodable d
            then (Inr (), fs\<lparr>files := (files fs)(path \<mapsto> d)\<rparr>)
            else (Inl SerializationError, fs))
      else (Inl IOError, fs))"

subsection \<open>The script\<close>

definition set_normal_font :: "document \<Rightarrow> error + document" where
  \<comment> \<open>\<^verbatim>\<open>doc.styles['Normal'].font.name = 'Arial'; doc.styles['Normal'].font.size = Pt(11)\<close>\<close>
  "set_normal_font d =
     (case set_style_font Normal (\<lambda>f. f\<lparr>font_name := Some Arial\<rparr>) d of
        Inl e \<Rightarrow> Inl e
      | Inr d1 \<Rightarrow> set_style_font Normal (\<lambda>f. f\<lparr>font_size := Some (Pt 11)\<rparr>) d1)"

definition loop_body :: "document \<Rightarrow> pystr \<Rightarrow> error + document" where
  \<comment> \<open>\<^verbatim>\<open>p = doc.add_paragraph(); p.add_run(para.strip())\<close>\<close>
  "loop_body d para = (case add_paragraph d of (d1, p) \<Rightarrow> add_run p (py_strip para) d1)"

fun for_para :: "document \<Rightarrow> pystr list \<Rightarrow> error + document" where
  \<comment> \<open>The \<^verbatim>\<open>for para in ...\<close> loop, over the segments left. An exception in the body
      ends the loop.\<close>
  "for_para d [] = Inr d"
| "for_para d (para # rest) =
     (case loop_body d para of
        Inl e \<Rightarrow> Inl e
      | Inr d' \<Rightarrow> for_para d' rest)"

definition build_document :: "pystr \<Rightarrow> error + document" where
  \<comment> \<open>The script up to the end of the loop: the document that is then saved, or the
      exception that ended the run before.\<close>
  "build_document report =
     (case set_normal_font Document of
        Inl e \<Rightarrow> Inl e
      | Inr d \<Rightarrow> for_para d (segments report))"

record process =
  disk :: filesystem
  stdout :: pystr

definition print :: "pystr \<Rightarrow> process \<Rightarrow> process" where
  \<comment> \<open>\<^verbatim>\<open>print(s)\<close> writes \<open>s\<close> and a line feed to the standard output.\<close>
  "print s pr = pr\<lparr>stdout := stdout pr @ s @ [nl]\<rparr>"

definition confirmation :: "pystr \<Rightarrow> pystr" where
  \<comment> \<open>\<^verbatim>\<open>f"Report written to: {output_path}"\<close>\<close>
  "confirmation path = py_str ''Report written to: '' @ path"

definition script :: "pystr \<Rightarrow> pystr \<Rightarrow> process \<Rightarrow> (error + unit) \<times> process" where
  \<comment> \<open>The whole script. Nothing catches an exception: the first one ends the run.\<close>
  "script report path pr =
     (case build_document report of
        Inl e \<Rightarrow> (Inl e, pr)
      | Inr d \<Rightarrow>
          (case save d path (disk pr) of
             (Inl e, fs) \<Rightarrow> (Inl e, pr\<lparr>disk := fs\<rparr>)
           | (Inr u, fs) \<Rightarrow> (Inr (), print (confirmation path) (pr\<lparr>disk := fs\<rparr>))))"

definition output_path :: pystr where
  \<comment> \<open>\<^verbatim>\<open>r"d:\automation Assignment\B9IS121_Report.docx"\<close>; 0x5C is the backslash.\<close>
  "output_path =
     py_str ''d:'' @ [0x5C] @ py_str ''automation Assignment'' @ [0x5C] @ py_str ''B9IS121_Report.docx''"

record outcome =
  status :: nat
  traceback :: "error option"
  final :: process

definition python :: "pystr \<Rightarrow> pystr \<Rightarrow> filesystem \<Rightarrow> outcome" where
  \<comment> \<open>Running the script as a process that starts with an empty standard output. The
      interpreter ends with status 0 when the script reaches its end; an exception that
      nothing caught is reported on the standard error (the traceback and the error
      message) and the status is 1.\<close>
  "python report path fs =
     (case script report path \<lparr>disk = fs, stdout = []\<rparr> of
        (Inl e, pr) \<Rightarrow> \<lparr>status = 1, traceback = Some e, final = pr\<rparr>
      | (Inr u, pr) \<Rightarrow> \<lparr>status = 0, traceback = None, final = pr\<rparr>)"

definition output_texts :: "pystr \<Rightarrow> error + pystr list" where
  \<comment> \<open>The texts of the paragraphs of the document built, in order.\<close>
  "output_texts report =
     (case build_document report of
        Inl e \<Rightarrow> Inl e
      | Inr d \<Rightarrow> Inr (map paragraph_text (paragraphs d)))"

subsection \<open>Texts, and the specification's reading of the loop\<close>

definition storable :: "pystr \<Rightarrow> bool" where
  \<comment> \<open>The texts whose trimmed pieces hold XML characters only: those that every
      \<open>add_run\<close> of the loop accepts.\<close>
  "storable report = list_all (\<lambda>s. list_all xml_char (py_strip s)) (segments report)"

definition spec_segments :: "pystr \<Rightarrow> pystr list" where
  \<comment> \<open>Following the specification's words: "trim leading/trailing whitespace from text;
      split into segments on double newline (blank-line boundaries); for each non-empty
      trimmed segment, append one paragraph". These are the non-empty trimmed segments.\<close>
  "spec_segments report =
     filter (\<lambda>s. s \<noteq> []) (map py_strip (py_split_from blank_line [] (py_strip report)))"

fun py_join :: "pystr \<Rightarrow> pystr list \<Rightarrow> pystr" where
  \<comment> \<open>\<^verbatim>\<open>sep.join(pieces)\<close>\<close>
  "py_join sep [] = []"
| "py_join sep [x] = x"
| "py_join sep (x # y # ys) = x @ sep @ py_join sep (y # ys)"

definition paragraph_count :: "pystr \<Rightarrow> error + nat" where
  \<comment> \<open>The number of paragraph elements of the document built.\<close>
  "paragraph_count report =
     (case build_document report of
        Inl e \<Rightarrow> Inl e
      | Inr d \<Rightarrow> Inr (length (paragraphs d)))"

definition saved_texts :: "filesystem \<Rightarrow> pystr \<Rightarrow> pystr list option" where
  \<comment> \<open>Opening the file at a path again and reading the texts of its paragraphs in order.\<close>
  "saved_texts fs path = map_option (\<lambda>d. map paragraph_text (paragraphs d)) (files fs path)"

section \<open>Properties\<close>

subsection \<open>Splitting and joining\<close>

lemma py_split_from_nonempty: "py_split_from sep cur s \<noteq> []"
  by (induction sep cur s rule: py_split_from.induct) auto

lemma py_join_Cons: "ys \<noteq> [] \<Longrightarrow> py_join sep (x # ys) = x @ sep @ py_join sep ys"
  by (cases ys) simp_all

lemma py_join_split_from:
  "sep \<noteq> [] \<Longrightarrow> py_join sep (py_split_from sep cur s) = cur @ s"
proof (induction sep cur s rule: py_split_from.induct)
  case (1 sep cur)
  then show ?case by simp
next
  case (2 sep cur c cs)
  show ?case
  proof (cases "prefix sep (c # cs)")
    case True
    then have r: "sep @ drop (length sep) (c # cs) = c # cs"
      by (metis append_eq_conv_conj prefix_def)
    from 2(1) 2(3) True
    have ih: "py_join sep (py_split_from sep [] (drop (length sep) (c # cs))) = drop (length sep) (c # cs)"
      by simp
    have "py_split_from sep cur (c # cs) = cur # py_split_from sep [] (drop (length sep) (c # cs))"
      using True 2(3) by simp
    then have "py_join sep (py_split_from sep cur (c # cs)) = cur @ sep @ drop (length sep) (c # cs)"
      using ih by (simp only: py_join_Cons[OF py_split_from_nonempty])
    with r show ?thesis by simp
  next
    case False
    with 2 show ?thesis by simp
  qed
qed

lemma py_split_from_no_sep:
  "sep \<noteq> [] \<Longrightarrow> \<not> sublist sep s \<Longrightarrow> py_split_from sep cur s = [cur @ s]"
proof (induction sep cur s rule: py_split_from.induct)
  case (1 sep cur)
  then show ?case by simp
next
  case (2 sep cur c cs)
  from 2(4) have np: "\<not> prefix sep (c # cs)" and ns: "\<not> sublist sep cs"
    by (auto simp: sublist_Cons_right)
  with 2 show ?case by simp
qed

lemma not_sublist_step:
  assumes sep: "sep \<noteq> []"
    and inv: "\<not> sublist sep (cur @ take (length sep - 1) (c # cs))"
    and np: "\<not> prefix sep (c # cs)"
  shows "\<not> sublist sep ((cur @ [c]) @ take (length sep - 1) cs)"
proof
  let ?n = "length sep"
  let ?w = "(cur @ [c]) @ take (?n - 1) cs"
  assume "sublist sep ?w"
  then obtain ps ss where w: "?w = ps @ sep @ ss" by (auto simp: sublist_def)
  show False
  proof (cases "length cs < ?n - 1")
    case True
    then have "take (?n - 1) (c # cs) = c # cs" "take (?n - 1) cs = cs" by auto
    with inv w show False by (auto simp: sublist_def)
  next
    case False
    then have len: "length (take (?n - 1) cs) = ?n - 1" by simp
    have bl: "butlast ?w = cur @ take (?n - 1) (c # cs)"
    proof (cases "?n - 1")
      case 0
      then show ?thesis by (simp add: butlast_append)
    next
      case (Suc k)
      with False have "butlast (take (?n - 1) cs) = take k cs"
        by (simp add: butlast_take)
      with Suc False show ?thesis
        by (cases "take (Suc k) cs") (auto simp: butlast_append)
    qed
    show False
    proof (cases "ss = []")
      case True
      with w have "?w = ps @ sep" by simp
      moreover have "?w = cur @ (c # take (?n - 1) cs)" by simp
      moreover have "length (c # take (?n - 1) cs) = length sep" using len sep by (cases sep) auto
      ultimately have "sep = c # take (?n - 1) cs"
        by (metis append_eq_append_conv)
      then have "prefix sep (c # cs)"
        by (metis Cons_prefix_Cons take_is_prefix)
      with np show False by simp
    next
      case False
      with w have "butlast ?w = ps @ sep @ butlast ss"
        by (simp add: butlast_append)
      with bl inv show False by (auto simp: sublist_def)
    qed
  qed
qed

lemma py_split_from_pieces:
  "sep \<noteq> [] \<Longrightarrow> \<not> sublist sep (cur @ take (length sep - 1) s) \<Longrightarrow>
   seg \<in> set (py_split_from sep cur s) \<Longrightarrow> \<not> sublist sep seg"
proof (induction sep cur s rule: py_split_from.induct)
  case (1 sep cur)
  then show ?case by simp
next
  case (2 sep cur c cs)
  show ?case
  proof (cases "prefix sep (c # cs)")
    case True
    with 2(3,5) have "seg = cur \<or> seg \<in> set (py_split_from sep [] (drop (length sep) (c # cs)))"
      by simp
    then show ?thesis
    proof
      assume "seg = cur"
      moreover have "\<not> sublist sep cur"
        using 2(4) by (metis sublist_append_rightI sublist_order.order_trans)
      ultimately show ?thesis by simp
    next
      assume s: "seg \<in> set (py_split_from sep [] (drop (length sep) (c # cs)))"
      have "length (take (length sep - 1) (drop (length sep) (c # cs))) < length sep"
        using 2(3) by (cases sep) auto
      then have "\<not> sublist sep ([] @ take (length sep - 1) (drop (length sep) (c # cs)))"
        using sublist_length_le by fastforce
      with 2(1) 2(3) True s show ?thesis by blast
    qed
  next
    case False
    with 2(3,5) have s: "seg \<in> set (py_split_from sep (cur @ [c]) cs)"
      by simp
    from 2(3,4) False have "\<not> sublist sep ((cur @ [c]) @ take (length sep - 1) cs)"
      by (rule not_sublist_step)
    with 2(2) 2(3) False s show ?thesis by blast
  qed
qed

lemma segments_no_blank_line:
  assumes "seg \<in> set (segments report)"
  shows "\<not> sublist blank_line seg"
proof -
  have ne: "blank_line \<noteq> []" by (simp add: blank_line_def)
  have "\<not> sublist blank_line ([] @ take (length blank_line - 1) (py_strip report))"
    using sublist_length_le [of blank_line "take (length blank_line - 1) (py_strip report)"]
    by (auto simp: blank_line_def)
  from py_split_from_pieces [OF ne this] assms show ?thesis
    by (simp add: segments_def)
qed

lemma set_py_split_from:
  "seg \<in> set (py_split_from sep cur s) \<Longrightarrow> set seg \<subseteq> set cur \<union> set s"
proof (induction sep cur s rule: py_split_from.induct)
  case (1 sep cur)
  then show ?case by simp
next
  case (2 sep cur c cs)
  show ?case
  proof (cases "sep \<noteq> [] \<and> prefix sep (c # cs)")
    case True
    with 2(3) have "seg = cur \<or> seg \<in> set (py_split_from sep [] (drop (length sep) (c # cs)))"
      by simp
    then show ?thesis
    proof
      assume "seg = cur"
      then show ?thesis by auto
    next
      assume "seg \<in> set (py_split_from sep [] (drop (length sep) (c # cs)))"
      with 2(1) True have "set seg \<subseteq> set [] \<union> set (drop (length sep) (c # cs))"
        by blast
      also have "\<dots> \<subseteq> set (c # cs)"
        using set_drop_subset [of "length sep" "c # cs"] by simp
      finally show ?thesis by auto
    qed
  next
    case False
    with 2(3) have "seg \<in> set (py_split_from sep (cur @ [c]) cs)"
      by (simp split: if_splits)
    with 2(2) False have "set seg \<subseteq> set (cur @ [c]) \<union> set cs"
      by blast
    then show ?thesis by auto
  qed
qed

subsection \<open>Trimming\<close>

lemma last_dropWhile: "dropWhile P xs \<noteq> [] \<Longrightarrow> last (dropWhile P xs) = last xs"
  by (induction xs) (auto split: if_splits)

lemma py_strip_last: "py_strip s \<noteq> [] \<Longrightarrow> \<not> py_isspace (last (py_strip s))"
  unfolding py_strip_def
  by (simp add: last_rev hd_dropWhile)

lemma py_strip_hd: "py_strip s \<noteq> [] \<Longrightarrow> \<not> py_isspace (hd (py_strip s))"
proof -
  assume ne: "py_strip s \<noteq> []"
  let ?y = "dropWhile py_isspace s"
  let ?x = "dropWhile py_isspace (rev ?y)"
  from ne have x: "?x \<noteq> []" by (simp add: py_strip_def)
  then have y: "?y \<noteq> []" by (metis dropWhile.simps(1) rev.simps(1))
  have "hd (py_strip s) = last ?x" using x by (simp add: py_strip_def hd_rev)
  also have "\<dots> = last (rev ?y)" using x by (rule last_dropWhile)
  also have "\<dots> = hd ?y" using y by (simp add: last_rev)
  finally show ?thesis using y by (simp add: hd_dropWhile)
qed

lemma py_strip_fixed:
  assumes "s = [] \<or> (\<not> py_isspace (hd s) \<and> \<not> py_isspace (last s))"
  shows "py_strip s = s"
proof (cases s)
  case Nil
  then show ?thesis by (simp add: py_strip_def)
next
  case (Cons c cs)
  with assms have h: "\<not> py_isspace c" and l: "\<not> py_isspace (last s)" by auto
  from h Cons have 1: "dropWhile py_isspace s = s" by simp
  from Cons have "rev s = rev (butlast s @ [last s])" by simp
  then have r: "rev s = last s # rev (butlast s)" by simp
  from l have d: "dropWhile py_isspace (last s # rev (butlast s)) = last s # rev (butlast s)"
    by simp
  have 2: "dropWhile py_isspace (rev s) = rev s" by (simp only: r d)
  show ?thesis by (simp add: py_strip_def 1 2)
qed

lemma py_strip_idem: "py_strip (py_strip s) = py_strip s"
  by (rule py_strip_fixed) (use py_strip_hd py_strip_last in blast)

lemma py_strip_empty_iff: "py_strip s = [] \<longleftrightarrow> (\<forall>c\<in>set s. py_isspace c)"
proof
  assume "py_strip s = []"
  then have "dropWhile py_isspace (rev (dropWhile py_isspace s)) = []"
    by (simp add: py_strip_def)
  then have "dropWhile py_isspace s = []"
    by (metis dropWhile_eq_Nil_conv hd_dropWhile hd_in_set set_rev)
  then show "\<forall>c\<in>set s. py_isspace c" by (simp add: dropWhile_eq_Nil_conv)
next
  assume "\<forall>c\<in>set s. py_isspace c"
  then show "py_strip s = []" by (auto simp: py_strip_def dest: set_dropWhileD)
qed

lemma set_dropWhile_subset: "set (dropWhile P xs) \<subseteq> set xs"
  by (auto dest: set_dropWhileD)

lemma set_py_strip: "set (py_strip s) \<subseteq> set s"
proof -
  have "set (py_strip s) = set (dropWhile py_isspace (rev (dropWhile py_isspace s)))"
    by (simp only: py_strip_def set_rev)
  also have "\<dots> \<subseteq> set (rev (dropWhile py_isspace s))"
    by (rule set_dropWhile_subset)
  also have "\<dots> = set (dropWhile py_isspace s)"
    by (rule set_rev)
  also have "\<dots> \<subseteq> set s"
    by (rule set_dropWhile_subset)
  finally show ?thesis .
qed

lemma set_trimmed_piece:
  assumes "s \<in> set (segments report)"
  shows "set (py_strip s) \<subseteq> set report"
proof -
  from assms have "set s \<subseteq> set (py_strip report)"
    using set_py_split_from [of s blank_line "[]" "py_strip report"]
    by (simp add: segments_def)
  with set_py_strip [of s] set_py_strip [of report] show ?thesis by blast
qed

subsection \<open>What a run keeps of its text\<close>

lemma storable_xml_text: "list_all xml_char report \<Longrightarrow> storable report"
  unfolding storable_def list_all_iff
  using set_trimmed_piece by blast

lemma read_back_no_cr: "cr \<notin> set t \<Longrightarrow> read_back t = t"
  by (induction t) (auto simp: read_back_def)

lemma read_back_trimmed_piece:
  "cr \<notin> set report \<Longrightarrow> s \<in> set (segments report) \<Longrightarrow> read_back (py_strip s) = py_strip s"
  using set_trimmed_piece by (intro read_back_no_cr) blast

lemma read_back_pieces:
  "cr \<notin> set report \<Longrightarrow>
   map (\<lambda>s. read_back (py_strip s)) (segments report) = map py_strip (segments report)"
  by (simp add: read_back_trimmed_piece)

lemma read_back_xml: "list_all xml_char t \<Longrightarrow> list_all xml_char (read_back t)"
  by (induction t) (auto simp: read_back_def xml_char_def nl_def cr_def)

lemma read_back_xml_set:
  "x \<in> set (read_back t) \<Longrightarrow> \<forall>c\<in>set t. xml_char c \<Longrightarrow> xml_char x"
  by (auto simp: read_back_def xml_char_def nl_def cr_def split: if_splits)

lemma py_isspace_cr: "py_isspace cr"
  by (simp add: py_isspace_def cr_def)

lemma read_back_trimmed: "py_strip (read_back (py_strip s)) = read_back (py_strip s)"
proof (cases "py_strip s = []")
  case True
  then have e: "read_back (py_strip s) = []"
    by (simp add: read_back_def)
  have "py_strip [] = []"
    by (simp add: py_strip_def)
  then show ?thesis
    by (simp only: e)
next
  case False
  let ?t = "py_strip s"
  from False have h: "\<not> py_isspace (hd ?t)" and l: "\<not> py_isspace (last ?t)"
    by (simp_all add: py_strip_hd py_strip_last)
  with py_isspace_cr have "hd ?t \<noteq> cr" "last ?t \<noteq> cr" by auto
  with False have "hd (read_back ?t) = hd ?t" "last (read_back ?t) = last ?t"
    by (simp_all add: read_back_def hd_map last_map)
  with h l show ?thesis
    by (intro py_strip_fixed) simp
qed

lemma read_back_trimmed_ends:
  "read_back (py_strip s) = [] \<or>
   \<not> py_isspace (hd (read_back (py_strip s))) \<and> \<not> py_isspace (last (read_back (py_strip s)))"
proof (cases "py_strip s = []")
  case True
  then show ?thesis by (simp add: read_back_def)
next
  case False
  let ?t = "py_strip s"
  from False have h: "\<not> py_isspace (hd ?t)" and l: "\<not> py_isspace (last ?t)"
    by (simp_all add: py_strip_hd py_strip_last)
  with py_isspace_cr have "hd ?t \<noteq> cr" "last ?t \<noteq> cr" by auto
  with False have "hd (read_back ?t) = hd ?t" "last (read_back ?t) = last ?t"
    by (simp_all add: read_back_def hd_map last_map)
  with h l show ?thesis by simp
qed

subsection \<open>The loop and the document it builds\<close>

lemma loop_body_eq:
  "loop_body d para =
     (if list_all xml_char (py_strip para)
      then Inr (d\<lparr>paragraphs := paragraphs d @
             [\<lparr>pstyle = None,
               runs = [\<lparr>run_text = read_back (py_strip para), run_font = unset\<rparr>]\<rparr>]\<rparr>)
      else Inl ValueError)"
  by (simp add: loop_body_def add_paragraph_def add_run_def)

lemma for_para_eq:
  "for_para d segs =
     (if list_all (\<lambda>s. list_all xml_char (py_strip s)) segs
      then Inr (d\<lparr>paragraphs := paragraphs d @
             map (\<lambda>s. \<lparr>pstyle = None,
                        runs = [\<lparr>run_text = read_back (py_strip s), run_font = unset\<rparr>]\<rparr>) segs\<rparr>)
      else Inl ValueError)"
  by (induction segs arbitrary: d) (simp_all add: loop_body_eq)

lemma set_normal_font_Document:
  "set_normal_font Document =
     Inr \<lparr>styles = [Normal \<mapsto> \<lparr>font_name = Some Arial, font_size = Some (Pt 11)\<rparr>],
          paragraphs = []\<rparr>"
  by (simp add: set_normal_font_def set_style_font_def Document_def unset_def)

lemma build_document_eq:
  "build_document report =
     (if storable report
      then Inr \<lparr>styles = [Normal \<mapsto> \<lparr>font_name = Some Arial, font_size = Some (Pt 11)\<rparr>],
               paragraphs =
                 map (\<lambda>s. \<lparr>pstyle = None,
                            runs = [\<lparr>run_text = read_back (py_strip s), run_font = unset\<rparr>]\<rparr>)
                   (segments report)\<rparr>
      else Inl ValueError)"
  by (simp add: build_document_def set_normal_font_Document for_para_eq storable_def)

lemma output_texts_eq:
  "output_texts report =
     (if storable report
      then Inr (map (\<lambda>s. read_back (py_strip s)) (segments report))
      else Inl ValueError)"
  by (simp add: output_texts_def build_document_eq paragraph_text_def comp_def)

lemma paragraph_count_eq:
  "paragraph_count report =
     (if storable report then Inr (length (segments report)) else Inl ValueError)"
  by (simp add: paragraph_count_def build_document_eq)

lemma built_encodable:
  assumes "build_document report = Inr d"
  shows "encodable d"
proof -
  from assms have st: "storable report"
    and d: "paragraphs d =
      map (\<lambda>s. \<lparr>pstyle = None,
                 runs = [\<lparr>run_text = read_back (py_strip s), run_font = unset\<rparr>]\<rparr>)
        (segments report)"
    by (auto simp: build_document_eq split: if_splits)
  have "list_all xml_char (read_back (py_strip s))" if "s \<in> set (segments report)" for s
    using st that by (intro read_back_xml) (simp add: storable_def list_all_iff)
  then show ?thesis
    by (simp add: encodable_def d list_all_iff)
qed

lemma shown_font_unset:
  "styles d Normal = Some f \<Longrightarrow> pstyle p = None \<Longrightarrow> run_font r = unset \<Longrightarrow>
   shown_font d p r = Some f"
  by (simp add: shown_font_def unset_def)

subsection \<open>Saving and the process\<close>

lemma script_eq:
  "script report path pr =
     (if storable report
      then (if parent_writable (disk pr) path \<and> target_writable (disk pr) path
            then (Inr (),
                  \<lparr>disk = (disk pr)\<lparr>files := (files (disk pr))(path \<mapsto>
                     \<lparr>styles = [Normal \<mapsto> \<lparr>font_name = Some Arial, font_size = Some (Pt 11)\<rparr>],
                      paragraphs =
                        map (\<lambda>s. \<lparr>pstyle = None,
                                   runs = [\<lparr>run_text = read_back (py_strip s), run_font = unset\<rparr>]\<rparr>)
                          (segments report)\<rparr>)\<rparr>,
                   stdout = stdout pr @ confirmation path @ [nl]\<rparr>)
            else (Inl IOError, pr))
      else (Inl ValueError, pr))"
proof (cases "storable report")
  case True
  then have "encodable
     \<lparr>styles = [Normal \<mapsto> \<lparr>font_name = Some Arial, font_size = Some (Pt 11)\<rparr>],
      paragraphs =
        map (\<lambda>s. \<lparr>pstyle = None,
                   runs = [\<lparr>run_text = read_back (py_strip s), run_font = unset\<rparr>]\<rparr>)
          (segments report)\<rparr>"
    by (intro built_encodable [of report]) (simp add: build_document_eq)
  with True show ?thesis
    by (simp add: script_def build_document_eq save_def print_def)
next
  case False
  then show ?thesis
    by (simp add: script_def build_document_eq)
qed

lemma python_eq:
  "python report path fs =
     (if storable report
      then (if parent_writable fs path \<and> target_writable fs path
            then \<lparr>status = 0, traceback = None,
                  final =
                    \<lparr>disk = fs\<lparr>files := (files fs)(path \<mapsto>
                       \<lparr>styles = [Normal \<mapsto> \<lparr>font_name = Some Arial, font_size = Some (Pt 11)\<rparr>],
                        paragraphs =
                          map (\<lambda>s. \<lparr>pstyle = None,
                                     runs = [\<lparr>run_text = read_back (py_strip s), run_font = unset\<rparr>]\<rparr>)
                            (segments report)\<rparr>)\<rparr>,
                     stdout = confirmation path @ [nl]\<rparr>\<rparr>
            else \<lparr>status = 1, traceback = Some IOError, final = \<lparr>disk = fs, stdout = []\<rparr>\<rparr>)
      else \<lparr>status = 1, traceback = Some ValueError, final = \<lparr>disk = fs, stdout = []\<rparr>\<rparr>)"
  by (simp add: python_def script_eq)

lemma python_status:
  "status (python report path fs) = 0 \<longleftrightarrow>
     storable report \<and> parent_writable fs path \<and> target_writable fs path"
  by (simp add: python_eq)

lemma saved_texts_python:
  "status (python report path fs) = 0 \<Longrightarrow>
   saved_texts (disk (final (python report path fs))) path =
     Some (map (\<lambda>s. read_back (py_strip s)) (segments report))"
  by (simp add: python_eq saved_texts_def paragraph_text_def comp_def split: if_splits)

text \<open>The definitions that evaluating the script on a given text unfolds.\<close>

lemmas script_defs =
  output_texts_def paragraph_count_def build_document_def set_normal_font_def
  set_style_font_def Document_def unset_def loop_body_def add_paragraph_def add_run_def
  read_back_def xml_char_def paragraph_text_def segments_def py_str_def py_strip_def
  py_isspace_def blank_line_def nl_def cr_def

section \<open>The claims\<close>

text \<open>
  A text is \<open>storable\<close> when each of its trimmed pieces holds XML characters only;
  every text of XML characters is. The run on a text that is not storable ends at the
  first \<^verbatim>\<open>add_run\<close> that refuses its piece, with \<^verbatim>\<open>ValueError\<close> and without a document.
\<close>

subsection \<open>One paragraph per segment\<close>

text \<open>
  Claim C1 says that a text with \<open>k\<close> non-empty segments between blank lines gives a
  document with exactly \<open>k\<close> paragraphs, the \<open>i\<close>-th being the \<open>i\<close>-th trimmed non-empty
  segment. In \<^verbatim>\<open>"A\n\n\n\nB"\<close> there are two such segments, \<^verbatim>\<open>"A"\<close> and \<^verbatim>\<open>"B"\<close>; the
  separator occurs twice in a row, the split returns an empty piece between the two, and
  the loop, which tests nothing, appends a paragraph for it as well. The paragraph texts
  of the document are not the non-empty segments.
\<close>

theorem paragraphs_not_nonempty_segments:
  "spec_segments (py_str ''A\<newline>\<newline>\<newline>\<newline>B'') = [py_str ''A'', py_str ''B''] \<and>
   output_texts (py_str ''A\<newline>\<newline>\<newline>\<newline>B'') = Inr [py_str ''A'', [], py_str ''B''] \<and>
   output_texts (py_str ''A\<newline>\<newline>\<newline>\<newline>B'') \<noteq>
     Inr (spec_segments (py_str ''A\<newline>\<newline>\<newline>\<newline>B''))"
  by (simp add: script_defs spec_segments_def)

text \<open>
  Claim C1, amended. For every storable input text the document holds exactly one
  paragraph per piece of \<^verbatim>\<open>text.strip().split('\n\n')\<close>, in the order of the pieces, the
  \<open>i\<close>-th paragraph's text being the \<open>i\<close>-th piece trimmed, with every carriage return in it
  read back as a line feed: the trimmed piece itself when the text has no carriage
  return. Pieces that are empty after trimming give empty paragraphs; when there is none
  (and no carriage return), the paragraphs are exactly the \<open>k\<close> trimmed non-empty segments.
  The texts read back from the file that a successful run saved are the same. For a text
  that is not storable the build ends with \<^verbatim>\<open>ValueError\<close> and there is no document.
\<close>

theorem paragraph_per_segment:
  "(storable report \<longrightarrow>
      output_texts report = Inr (map (\<lambda>s. read_back (py_strip s)) (segments report))) \<and>
   (\<not> storable report \<longrightarrow> output_texts report = Inl ValueError) \<and>
   (list_all xml_char report \<longrightarrow> storable report) \<and>
   (storable report \<and> cr \<notin> set report \<longrightarrow>
      output_texts report = Inr (map py_strip (segments report))) \<and>
   filter (\<lambda>t. t \<noteq> []) (map py_strip (segments report)) = spec_segments report \<and>
   (storable report \<and> cr \<notin> set report \<and> [] \<notin> set (map py_strip (segments report)) \<longrightarrow>
      output_texts report = Inr (spec_segments report) \<and>
      paragraph_count report = Inr (length (spec_segments report))) \<and>
   (status (python report path fs) = 0 \<longrightarrow>
      saved_texts (disk (final (python report path fs))) path =
        Some (map (\<lambda>s. read_back (py_strip s)) (segments report)))"
proof -
  have 1: "output_texts report = Inr (map (\<lambda>s. read_back (py_strip s)) (segments report))"
    if "storable report"
    using that by (simp add: output_texts_eq)
  have 2: "output_texts report = Inl ValueError" if "\<not> storable report"
    using that by (simp add: output_texts_eq)
  have 3: "output_texts report = Inr (map py_strip (segments report))"
    if "storable report" "cr \<notin> set report"
    using that by (simp add: output_texts_eq read_back_pieces)
  have 4: "filter (\<lambda>t. t \<noteq> []) (map py_strip (segments report)) = spec_segments report"
    by (simp add: spec_segments_def segments_def)
  have e: "spec_segments report = map py_strip (segments report)"
    if "[] \<notin> set (map py_strip (segments report))"
  proof -
    from that have "filter (\<lambda>t. t \<noteq> []) (map py_strip (segments report)) =
        map py_strip (segments report)"
      by (intro filter_True) (metis image_eqI list.set_map)
    with 4 show ?thesis by simp
  qed
  have 5: "output_texts report = Inr (spec_segments report)"
    if "storable report" "cr \<notin> set report" "[] \<notin> set (map py_strip (segments report))"
    using 3 [OF that(1,2)] e [OF that(3)] by simp
  have 6: "paragraph_count report = Inr (length (spec_segments report))"
    if "storable report" "[] \<notin> set (map py_strip (segments report))"
    using that(1) by (simp add: e [OF that(2)] paragraph_count_eq)
  from 1 2 3 4 5 6 storable_xml_text saved_texts_python show ?thesis by blast
qed

theorem paragraph_per_segment_witness:
  "storable (py_str '' Hello \<newline>\<newline> world '') \<and>
   list_all xml_char (py_str '' Hello \<newline>\<newline> world '') \<and>
   cr \<notin> set (py_str '' Hello \<newline>\<newline> world '') \<and>
   [] \<notin> set (map py_strip (segments (py_str '' Hello \<newline>\<newline> world ''))) \<and>
   spec_segments (py_str '' Hello \<newline>\<newline> world '') = [py_str ''Hello'', py_str ''world''] \<and>
   output_texts (py_str '' Hello \<newline>\<newline> world '') = Inr [py_str ''Hello'', py_str ''world''] \<and>
   paragraph_count (py_str '' Hello \<newline>\<newline> world '') = Inr 2 \<and>
   status (python (py_str '' Hello \<newline>\<newline> world '') output_path
        \<lparr>files = Map.empty, parent_writable = (\<lambda>p. True), target_writable = (\<lambda>p. True)\<rparr>) = 0 \<and>
   saved_texts (disk (final (python (py_str '' Hello \<newline>\<newline> world '') output_path
        \<lparr>files = Map.empty, parent_writable = (\<lambda>p. True), target_writable = (\<lambda>p. True)\<rparr>)))
      output_path =
     Some [py_str ''Hello'', py_str ''world'']"
proof -
  let ?t = "py_str '' Hello \<newline>\<newline> world ''"
  let ?fs = "\<lparr>files = Map.empty, parent_writable = (\<lambda>p. True), target_writable = (\<lambda>p. True)\<rparr>"
  have seg: "segments ?t = [py_str ''Hello '', py_str '' world'']"
    by (simp add: script_defs)
  have st: "storable ?t"
    by (simp add: storable_def seg) (simp add: script_defs)
  have x: "list_all xml_char ?t" and c: "cr \<notin> set ?t"
    by (simp_all add: script_defs)
  have n: "[] \<notin> set (map py_strip (segments ?t))"
    by (simp add: seg) (simp add: script_defs)
  have sp: "spec_segments ?t = [py_str ''Hello'', py_str ''world'']"
    by (simp add: spec_segments_def script_defs)
  have s0: "status (python ?t output_path ?fs) = 0"
    by (simp add: python_status st)
  note th = paragraph_per_segment [of ?t output_path ?fs]
  from th st c n have o: "output_texts ?t = Inr (spec_segments ?t)"
    and k: "paragraph_count ?t = Inr (length (spec_segments ?t))"
    by blast+
  from th st c s0
  have sv: "saved_texts (disk (final (python ?t output_path ?fs))) output_path =
      Some (map (\<lambda>s. read_back (py_strip s)) (segments ?t))"
    by blast
  have rb: "map (\<lambda>s. read_back (py_strip s)) (segments ?t) = [py_str ''Hello'', py_str ''world'']"
    by (simp add: seg) (simp add: script_defs)
  from st x c n sp o k s0 sv show ?thesis
    by (simp only: rb sp) simp
qed

text \<open>
  Claim C2 says that the number of paragraph elements is the number of non-empty segments.
  The empty text has no non-empty segment, but \<^verbatim>\<open>''.strip().split('\n\n')\<close> is the list of
  one empty string, so the document has one paragraph.
\<close>

theorem empty_text_count_differs:
  "length (spec_segments []) = 0 \<and>
   paragraph_count [] = Inr 1 \<and>
   paragraph_count [] \<noteq> Inr (length (spec_segments []))"
  by (simp add: script_defs spec_segments_def)

text \<open>
  Claim C2, amended. Whenever the build completes, the number of paragraph elements of
  the document is the number of all pieces of \<^verbatim>\<open>text.strip().split('\n\n')\<close>: the number
  of non-empty segments plus the number of pieces that are empty after trimming. The
  build completes for every storable text, and for no other.
\<close>

theorem paragraph_count_all_segments:
  "(\<forall>n. paragraph_count report = Inr n \<longrightarrow> n = length (segments report)) \<and>
   (storable report \<longrightarrow> paragraph_count report = Inr (length (segments report))) \<and>
   (\<not> storable report \<longrightarrow> paragraph_count report = Inl ValueError) \<and>
   length (segments report) =
     length (spec_segments report) + length (filter (\<lambda>s. py_strip s = []) (segments report))"
proof -
  have "length (spec_segments report) =
      length (filter (\<lambda>s. py_strip s \<noteq> []) (segments report))"
    by (simp add: spec_segments_def segments_def filter_map comp_def)
  then have "length (segments report) =
     length (spec_segments report) + length (filter (\<lambda>s. py_strip s = []) (segments report))"
    using sum_length_filter_compl [of "\<lambda>s. py_strip s \<noteq> []" "segments report"] by simp
  then show ?thesis
    by (simp add: paragraph_count_eq)
qed

theorem paragraph_count_all_segments_witness:
  "storable (py_str ''A\<newline>\<newline> \<newline>\<newline>B'') \<and>
   paragraph_count (py_str ''A\<newline>\<newline> \<newline>\<newline>B'') = Inr 3 \<and>
   length (segments (py_str ''A\<newline>\<newline> \<newline>\<newline>B'')) = 3 \<and>
   length (spec_segments (py_str ''A\<newline>\<newline> \<newline>\<newline>B'')) = 2 \<and>
   \<not> storable (py_str ''A'' @ [0] @ py_str ''B'') \<and>
   paragraph_count (py_str ''A'' @ [0] @ py_str ''B'') = Inl ValueError"
proof -
  let ?t = "py_str ''A\<newline>\<newline> \<newline>\<newline>B''"
  let ?u = "py_str ''A'' @ [0] @ py_str ''B''"
  have seg: "segments ?t = [py_str ''A'', py_str '' '', py_str ''B'']"
    by (simp add: script_defs)
  have st: "storable ?t"
    by (simp add: storable_def seg) (simp add: script_defs)
  have sp: "length (spec_segments ?t) = 2"
    by (simp add: spec_segments_def script_defs)
  have segu: "segments ?u = [?u]"
    by (simp add: script_defs)
  have nu: "\<not> storable ?u"
    by (simp add: storable_def segu) (simp add: script_defs)
  from paragraph_count_all_segments [of ?t] st
  have "paragraph_count ?t = Inr (length (segments ?t))" by blast
  moreover from paragraph_count_all_segments [of ?u] nu
  have "paragraph_count ?u = Inl ValueError" by blast
  ultimately show ?thesis
    using st sp nu by (simp add: seg)
qed

subsection \<open>The two scenarios\<close>

text \<open>
  Claim C3 says that the input \<^verbatim>\<open>"\n\nA\n\n\n\nB\n\n"\<close> gives exactly two paragraphs,
  \<^verbatim>\<open>"A"\<close> then \<^verbatim>\<open>"B"\<close>. The script trims the text to \<^verbatim>\<open>"A\n\n\n\nB"\<close>, in which the
  separator occurs twice with nothing in between, and the loop has no test that would
  skip the empty piece: the document does not have these two paragraphs.
\<close>

theorem extra_blank_lines_not_two_paragraphs:
  "output_texts (py_str ''\<newline>\<newline>A\<newline>\<newline>\<newline>\<newline>B\<newline>\<newline>'') \<noteq>
     Inr [py_str ''A'', py_str ''B'']"
  by (simp add: script_defs)

text \<open>
  Claim C3, amended. For the input \<^verbatim>\<open>"\n\nA\n\n\n\nB\n\n"\<close> the builder produces a document
  with exactly three paragraphs, whose texts are \<^verbatim>\<open>"A"\<close>, the empty string and \<^verbatim>\<open>"B"\<close>: the
  whitespace around the text is trimmed, and the empty piece between the two blank-line
  boundaries becomes an empty paragraph.
\<close>

theorem extra_blank_lines_three_paragraphs:
  "output_texts (py_str ''\<newline>\<newline>A\<newline>\<newline>\<newline>\<newline>B\<newline>\<newline>'') =
     Inr [py_str ''A'', [], py_str ''B'']"
  by (simp add: script_defs)

text \<open>
  Claim C4. For the input text \<^verbatim>\<open>"A\n\nB\n\nC"\<close> the builder produces a document with
  exactly three paragraphs, whose texts are \<^verbatim>\<open>"A"\<close>, \<^verbatim>\<open>"B"\<close> and \<^verbatim>\<open>"C"\<close> in that order.
\<close>

theorem three_paragraphs_in_order:
  "output_texts (py_str ''A\<newline>\<newline>B\<newline>\<newline>C'') =
     Inr [py_str ''A'', py_str ''B'', py_str ''C'']"
  by (simp add: script_defs)

subsection \<open>Style and runs\<close>

text \<open>
  Claim C5. The font of the \<^verbatim>\<open>Normal\<close> style is set to Arial, 11 pt, before any paragraph
  is added: the two assignments succeed on the new document and leave it without
  paragraphs, and the loop starts from that document. In every document built, the style
  still has this font, every paragraph is in the default style and every run is shown in
  Arial, 11 pt.
\<close>

theorem default_style_for_every_paragraph:
  "set_normal_font Document =
     Inr \<lparr>styles = [Normal \<mapsto> \<lparr>font_name = Some Arial, font_size = Some (Pt 11)\<rparr>],
          paragraphs = []\<rparr> \<and>
   build_document report =
     for_para
       \<lparr>styles = [Normal \<mapsto> \<lparr>font_name = Some Arial, font_size = Some (Pt 11)\<rparr>],
        paragraphs = []\<rparr> (segments report) \<and>
   (\<forall>d. build_document report = Inr d \<longrightarrow>
      styles d Normal = Some \<lparr>font_name = Some Arial, font_size = Some (Pt 11)\<rparr> \<and>
      (\<forall>p\<in>set (paragraphs d). pstyle p = None \<and>
         (\<forall>r\<in>set (runs p).
            shown_font d p r = Some \<lparr>font_name = Some Arial, font_size = Some (Pt 11)\<rparr>)))"
proof (intro conjI allI impI)
  show "set_normal_font Document =
     Inr \<lparr>styles = [Normal \<mapsto> \<lparr>font_name = Some Arial, font_size = Some (Pt 11)\<rparr>],
          paragraphs = []\<rparr>"
    by (rule set_normal_font_Document)
  show "build_document report =
     for_para
       \<lparr>styles = [Normal \<mapsto> \<lparr>font_name = Some Arial, font_size = Some (Pt 11)\<rparr>],
        paragraphs = []\<rparr> (segments report)"
    by (simp add: build_document_def set_normal_font_Document)
next
  fix d
  assume d: "build_document report = Inr d"
  then show st: "styles d Normal = Some \<lparr>font_name = Some Arial, font_size = Some (Pt 11)\<rparr>"
    by (auto simp: build_document_eq split: if_splits)
  show "\<forall>p\<in>set (paragraphs d). pstyle p = None \<and>
         (\<forall>r\<in>set (runs p).
            shown_font d p r = Some \<lparr>font_name = Some Arial, font_size = Some (Pt 11)\<rparr>)"
  proof (intro ballI conjI)
    fix p
    assume "p \<in> set (paragraphs d)"
    with d obtain s where
      p: "p = \<lparr>pstyle = None, runs = [\<lparr>run_text = read_back (py_strip s), run_font = unset\<rparr>]\<rparr>"
      by (auto simp: build_document_eq split: if_splits)
    then show ps: "pstyle p = None" by simp
    fix r
    assume "r \<in> set (runs p)"
    with p have "run_font r = unset" by simp
    with st ps show "shown_font d p r = Some \<lparr>font_name = Some Arial, font_size = Some (Pt 11)\<rparr>"
      by (rule shown_font_unset)
  qed
qed

theorem default_style_for_every_paragraph_witness:
  "build_document (py_str ''A\<newline>\<newline>B'') =
     Inr \<lparr>styles = [Normal \<mapsto> \<lparr>font_name = Some Arial, font_size = Some (Pt 11)\<rparr>],
          paragraphs =
            [\<lparr>pstyle = None, runs = [\<lparr>run_text = py_str ''A'', run_font = unset\<rparr>]\<rparr>,
             \<lparr>pstyle = None, runs = [\<lparr>run_text = py_str ''B'', run_font = unset\<rparr>]\<rparr>]\<rparr> \<and>
   shown_font
     \<lparr>styles = [Normal \<mapsto> \<lparr>font_name = Some Arial, font_size = Some (Pt 11)\<rparr>],
      paragraphs =
        [\<lparr>pstyle = None, runs = [\<lparr>run_text = py_str ''A'', run_font = unset\<rparr>]\<rparr>,
         \<lparr>pstyle = None, runs = [\<lparr>run_text = py_str ''B'', run_font = unset\<rparr>]\<rparr>]\<rparr>
     \<lparr>pstyle = None, runs = [\<lparr>run_text = py_str ''B'', run_font = unset\<rparr>]\<rparr>
     \<lparr>run_text = py_str ''B'', run_font = unset\<rparr> =
     Some \<lparr>font_name = Some Arial, font_size = Some (Pt 11)\<rparr> \<and>
   Pt 11 = 139700"
proof -
  let ?t = "py_str ''A\<newline>\<newline>B''"
  let ?r = "\<lparr>run_text = py_str ''B'', run_font = unset\<rparr>"
  let ?p = "\<lparr>pstyle = None, runs = [?r]\<rparr>"
  let ?d = "\<lparr>styles = [Normal \<mapsto> \<lparr>font_name = Some Arial, font_size = Some (Pt 11)\<rparr>],
      paragraphs =
        [\<lparr>pstyle = None, runs = [\<lparr>run_text = py_str ''A'', run_font = unset\<rparr>]\<rparr>, ?p]\<rparr>"
  have b: "build_document ?t = Inr ?d"
    by (simp add: build_document_def set_normal_font_Document)
      (simp add: loop_body_def add_paragraph_def add_run_def read_back_def xml_char_def
        segments_def py_str_def py_strip_def py_isspace_def blank_line_def nl_def cr_def)
  have p: "?p \<in> set (paragraphs ?d)" and r: "?r \<in> set (runs ?p)"
    by simp_all
  from default_style_for_every_paragraph [of ?t] b p r
  have "shown_font ?d ?p ?r = Some \<lparr>font_name = Some Arial, font_size = Some (Pt 11)\<rparr>"
    by blast
  moreover have "Pt 11 = 139700"
    by (simp add: Pt_def)
  ultimately show ?thesis
    using b by simp
qed

text \<open>
  Claim C6 says that the one run of every paragraph has the trimmed segment as its text.
  The text \<^verbatim>\<open>"A\rB"\<close> is a single piece that trimming leaves as it is; the library stores
  its carriage return as a line break, and the text of the run is \<^verbatim>\<open>"A\nB"\<close>, which is
  not the trimmed segment.
\<close>

theorem carriage_return_not_kept:
  "py_strip (py_str ''A'' @ [cr] @ py_str ''B'') = py_str ''A'' @ [cr] @ py_str ''B'' \<and>
   build_document (py_str ''A'' @ [cr] @ py_str ''B'') =
     Inr \<lparr>styles = [Normal \<mapsto> \<lparr>font_name = Some Arial, font_size = Some (Pt 11)\<rparr>],
          paragraphs =
            [\<lparr>pstyle = None,
              runs = [\<lparr>run_text = py_str ''A'' @ [nl] @ py_str ''B'', run_font = unset\<rparr>]\<rparr>]\<rparr> \<and>
   py_str ''A'' @ [nl] @ py_str ''B'' \<noteq> py_strip (py_str ''A'' @ [cr] @ py_str ''B'')"
  by (simp add: script_defs)

text \<open>
  Claim C6, amended. In every document the builder produces, every paragraph holds
  exactly one run, whose text is the trimmed text of its segment with every carriage
  return read back as a line feed: the trimmed segment itself when the text has no carriage
  return. Trimming the run's text again changes nothing, and it neither starts nor ends
  with whitespace. The builder produces a document for every storable text.
\<close>

theorem one_trimmed_run_per_paragraph:
  "(storable report \<longrightarrow> (\<exists>d. build_document report = Inr d)) \<and>
   (\<forall>d. build_document report = Inr d \<longrightarrow>
      map runs (paragraphs d) =
        map (\<lambda>s. [\<lparr>run_text = read_back (py_strip s), run_font = unset\<rparr>]) (segments report) \<and>
      (cr \<notin> set report \<longrightarrow>
         map runs (paragraphs d) =
           map (\<lambda>s. [\<lparr>run_text = py_strip s, run_font = unset\<rparr>]) (segments report)) \<and>
      (\<forall>p\<in>set (paragraphs d). \<exists>r. runs p = [r] \<and>
         py_strip (run_text r) = run_text r \<and>
         (run_text r = [] \<or>
          \<not> py_isspace (hd (run_text r)) \<and> \<not> py_isspace (last (run_text r)))))"
proof (intro conjI allI impI)
  assume "storable report"
  then show "\<exists>d. build_document report = Inr d"
    by (simp add: build_document_eq)
next
  fix d
  assume "build_document report = Inr d"
  then have d: "paragraphs d =
      map (\<lambda>s. \<lparr>pstyle = None,
                 runs = [\<lparr>run_text = read_back (py_strip s), run_font = unset\<rparr>]\<rparr>)
        (segments report)"
    by (auto simp: build_document_eq split: if_splits)
  then show m: "map runs (paragraphs d) =
      map (\<lambda>s. [\<lparr>run_text = read_back (py_strip s), run_font = unset\<rparr>]) (segments report)"
    by (simp add: comp_def)
  show "map runs (paragraphs d) =
      map (\<lambda>s. [\<lparr>run_text = py_strip s, run_font = unset\<rparr>]) (segments report)"
    if "cr \<notin> set report"
    using that by (simp add: m read_back_trimmed_piece)
  show "\<forall>p\<in>set (paragraphs d). \<exists>r. runs p = [r] \<and>
         py_strip (run_text r) = run_text r \<and>
         (run_text r = [] \<or>
          \<not> py_isspace (hd (run_text r)) \<and> \<not> py_isspace (last (run_text r)))"
    using read_back_trimmed read_back_trimmed_ends by (auto simp: d)
qed

theorem one_trimmed_run_per_paragraph_witness:
  "storable (py_str ''A \<newline>\<newline> B'') \<and>
   cr \<notin> set (py_str ''A \<newline>\<newline> B'') \<and>
   build_document (py_str ''A \<newline>\<newline> B'') =
     Inr \<lparr>styles = [Normal \<mapsto> \<lparr>font_name = Some Arial, font_size = Some (Pt 11)\<rparr>],
          paragraphs =
            [\<lparr>pstyle = None, runs = [\<lparr>run_text = py_str ''A'', run_font = unset\<rparr>]\<rparr>,
             \<lparr>pstyle = None, runs = [\<lparr>run_text = py_str ''B'', run_font = unset\<rparr>]\<rparr>]\<rparr> \<and>
   segments (py_str ''A \<newline>\<newline> B'') = [py_str ''A '', py_str '' B''] \<and>
   py_strip (py_str ''A'') = py_str ''A'' \<and> \<not> py_isspace (hd (py_str ''A''))"
proof -
  let ?t = "py_str ''A \<newline>\<newline> B''"
  have seg: "segments ?t = [py_str ''A '', py_str '' B'']"
    by (simp add: script_defs)
  have st: "storable ?t"
    by (simp add: storable_def seg) (simp add: script_defs)
  have c: "cr \<notin> set ?t"
    by (simp add: script_defs)
  have b: "build_document ?t =
     Inr \<lparr>styles = [Normal \<mapsto> \<lparr>font_name = Some Arial, font_size = Some (Pt 11)\<rparr>],
          paragraphs =
            [\<lparr>pstyle = None, runs = [\<lparr>run_text = py_str ''A'', run_font = unset\<rparr>]\<rparr>,
             \<lparr>pstyle = None, runs = [\<lparr>run_text = py_str ''B'', run_font = unset\<rparr>]\<rparr>]\<rparr>"
    by (simp add: build_document_def set_normal_font_Document seg)
      (simp add: loop_body_def add_paragraph_def add_run_def read_back_def xml_char_def
        py_str_def py_strip_def py_isspace_def nl_def cr_def)
  from one_trimmed_run_per_paragraph [of ?t] b c
  have r: "map runs
      (paragraphs
        \<lparr>styles = [Normal \<mapsto> \<lparr>font_name = Some Arial, font_size = Some (Pt 11)\<rparr>],
         paragraphs =
           [\<lparr>pstyle = None, runs = [\<lparr>run_text = py_str ''A'', run_font = unset\<rparr>]\<rparr>,
            \<lparr>pstyle = None, runs = [\<lparr>run_text = py_str ''B'', run_font = unset\<rparr>]\<rparr>]\<rparr>) =
      map (\<lambda>s. [\<lparr>run_text = py_strip s, run_font = unset\<rparr>]) (segments ?t)"
    by blast
  have "py_strip (py_str ''A'') = py_str ''A''" "\<not> py_isspace (hd (py_str ''A''))"
    by (simp_all add: script_defs)
  with st c b seg r show ?thesis by simp
qed

subsection \<open>Saving and the console\<close>




text \<open>
  Claim C8. Two runs with the same text and the same output path that both complete
  save the same document, so the same paragraph texts in the same order, whatever the file
  system held before each run: the texts are a function of the input text alone, the
  trimmed pieces as they are read back. A second run right after the first, when it
  completes, leaves the disk as the first run left it.
\<close>

theorem same_paragraphs_on_every_run:
  assumes "status (python report path fs) = 0" and "status (python report path fs') = 0"
  shows "saved_texts (disk (final (python report path fs))) path =
           saved_texts (disk (final (python report path fs'))) path \<and>
         files (disk (final (python report path fs))) path =
           files (disk (final (python report path fs'))) path \<and>
         saved_texts (disk (final (python report path fs))) path =
           Some (map (\<lambda>s. read_back (py_strip s)) (segments report)) \<and>
         (status (python report path (disk (final (python report path fs)))) = 0 \<longrightarrow>
            disk (final (python report path (disk (final (python report path fs))))) =
              disk (final (python report path fs)))"
proof -
  let ?fs1 = "disk (final (python report path fs))"
  from assms have ok: "storable report"
    and w: "parent_writable fs path \<and> target_writable fs path"
    and w': "parent_writable fs' path \<and> target_writable fs' path"
    by (simp_all add: python_status)
  have 1: "saved_texts ?fs1 path = Some (map (\<lambda>s. read_back (py_strip s)) (segments report))"
    using assms(1) by (rule saved_texts_python)
  have 2: "saved_texts (disk (final (python report path fs'))) path =
      Some (map (\<lambda>s. read_back (py_strip s)) (segments report))"
    using assms(2) by (rule saved_texts_python)
  have 3: "files ?fs1 path = files (disk (final (python report path fs'))) path"
    using ok w w' by (simp add: python_eq)
  have 4: "disk (final (python report path ?fs1)) = ?fs1"
    if "status (python report path ?fs1) = 0"
  proof -
    from that have w1: "parent_writable ?fs1 path \<and> target_writable ?fs1 path"
      by (simp add: python_status)
    show ?thesis
      by (simp add: python_eq [of report path ?fs1] ok w1) (simp add: python_eq ok w)
  qed
  from 1 2 3 4 show ?thesis by simp
qed

theorem same_paragraphs_on_every_run_witness:
  "status (python (py_str ''A\<newline>\<newline>B'') output_path
      \<lparr>files = Map.empty, parent_writable = (\<lambda>p. True), target_writable = (\<lambda>p. True)\<rparr>) = 0 \<and>
   status (python (py_str ''A\<newline>\<newline>B'') output_path
      \<lparr>files = [output_path \<mapsto> Document], parent_writable = (\<lambda>p. True),
        target_writable = (\<lambda>p. True)\<rparr>) = 0 \<and>
   saved_texts (disk (final (python (py_str ''A\<newline>\<newline>B'') output_path
      \<lparr>files = Map.empty, parent_writable = (\<lambda>p. True), target_writable = (\<lambda>p. True)\<rparr>)))
      output_path =
     Some [py_str ''A'', py_str ''B''] \<and>
   saved_texts (disk (final (python (py_str ''A\<newline>\<newline>B'') output_path
      \<lparr>files = [output_path \<mapsto> Document], parent_writable = (\<lambda>p. True),
        target_writable = (\<lambda>p. True)\<rparr>))) output_path =
     Some [py_str ''A'', py_str ''B'']"
proof -
  let ?t = "py_str ''A\<newline>\<newline>B''"
  let ?fs = "\<lparr>files = Map.empty, parent_writable = (\<lambda>p. True), target_writable = (\<lambda>p. True)\<rparr>"
  let ?fs' = "\<lparr>files = [output_path \<mapsto> Document], parent_writable = (\<lambda>p. True),
      target_writable = (\<lambda>p. True)\<rparr>"
  have seg: "segments ?t = [py_str ''A'', py_str ''B'']"
    by (simp add: script_defs)
  have st: "storable ?t"
    by (simp add: storable_def seg) (simp add: script_defs)
  have s: "status (python ?t output_path ?fs) = 0"
    and s': "status (python ?t output_path ?fs') = 0"
    by (simp_all add: python_status st)
  have rb: "map (\<lambda>s. read_back (py_strip s)) (segments ?t) = [py_str ''A'', py_str ''B'']"
    by (simp add: seg) (simp add: script_defs)
  note run = same_paragraphs_on_every_run [OF s s']
  from run have a: "saved_texts (disk (final (python ?t output_path ?fs))) output_path =
      Some (map (\<lambda>s. read_back (py_strip s)) (segments ?t))"
    by (elim conjE)
  from run have "saved_texts (disk (final (python ?t output_path ?fs))) output_path =
      saved_texts (disk (final (python ?t output_path ?fs'))) output_path"
    by (elim conjE)
  with a have b: "saved_texts (disk (final (python ?t output_path ?fs'))) output_path =
      Some (map (\<lambda>s. read_back (py_strip s)) (segments ?t))"
    by simp
  from s s' a b show ?thesis
    unfolding rb by (intro conjI)
qed

text \<open>
  Claim C9. A run that ends with status 0 has printed the confirmation and nothing else:
  \<^verbatim>\<open>Report written to: \<close> followed by the output path and a line feed. The output path
  occurs in it, and for a path without a line feed, as the one of the script, this is
  exactly one line.
\<close>

theorem one_confirmation_line:
  assumes "status (python report path fs) = 0"
  shows "stdout (final (python report path fs)) =
           py_str ''Report written to: '' @ path @ [nl] \<and>
         sublist path (stdout (final (python report path fs))) \<and>
         (nl \<notin> set path \<longrightarrow> count_list (stdout (final (python report path fs))) nl = 1)"
proof -
  from assms have "storable report" and "parent_writable fs path \<and> target_writable fs path"
    by (simp_all add: python_status)
  then have out: "stdout (final (python report path fs)) =
      py_str ''Report written to: '' @ path @ [nl]"
    by (simp add: python_eq confirmation_def)
  have "sublist path (py_str ''Report written to: '' @ path @ [nl])"
    by (rule sublist_appendI)
  moreover have "count_list (py_str ''Report written to: '' @ path @ [nl]) nl = 1"
    if "nl \<notin> set path"
    using that by (simp add: py_str_def nl_def)
  ultimately show ?thesis using out by simp
qed

theorem one_confirmation_line_witness:
  "status (python (py_str ''A\<newline>\<newline>B'') output_path
      \<lparr>files = Map.empty, parent_writable = (\<lambda>p. True), target_writable = (\<lambda>p. True)\<rparr>) = 0 \<and>
   nl \<notin> set output_path \<and>
   stdout (final (python (py_str ''A\<newline>\<newline>B'') output_path
      \<lparr>files = Map.empty, parent_writable = (\<lambda>p. True), target_writable = (\<lambda>p. True)\<rparr>)) =
     py_str ''Report written to: '' @ output_path @ [nl] \<and>
   count_list (stdout (final (python (py_str ''A\<newline>\<newline>B'') output_path
      \<lparr>files = Map.empty, parent_writable = (\<lambda>p. True), target_writable = (\<lambda>p. True)\<rparr>))) nl = 1"
proof -
  let ?t = "py_str ''A\<newline>\<newline>B''"
  have seg: "segments ?t = [py_str ''A'', py_str ''B'']"
    by (simp add: script_defs)
  have st: "storable ?t"
    by (simp add: storable_def seg) (simp add: script_defs)
  have s: "status (python ?t output_path
      \<lparr>files = Map.empty, parent_writable = (\<lambda>p. True), target_writable = (\<lambda>p. True)\<rparr>) = 0"
    by (simp add: python_status st)
  have n: "nl \<notin> set output_path"
    by (simp add: output_path_def py_str_def nl_def)
  from one_confirmation_line [OF s] n s show ?thesis by blast
qed

subsection \<open>What the loop does with every piece\<close>

text \<open>
  Claim C10 says that for every input text the builder appends one paragraph per piece
  and that the document always has at least one paragraph. The text \<^verbatim>\<open>"A\0B\n\nC"\<close> has
  two pieces; \<^verbatim>\<open>add_run\<close> refuses the first, the exception ends the loop before the second
  piece gets its paragraph, and there is no document.
\<close>

theorem unstorable_piece_ends_the_loop:
  "segments (py_str ''A'' @ [0] @ py_str ''B\<newline>\<newline>C'') =
     [py_str ''A'' @ [0] @ py_str ''B'', py_str ''C''] \<and>
   build_document (py_str ''A'' @ [0] @ py_str ''B\<newline>\<newline>C'') = Inl ValueError \<and>
   paragraph_count (py_str ''A'' @ [0] @ py_str ''B\<newline>\<newline>C'') \<noteq>
     Inr (length (segments (py_str ''A'' @ [0] @ py_str ''B\<newline>\<newline>C'')))"
  by (simp add: script_defs)

text \<open>
  Claim C10, amended. For every storable input text, and so whenever a document is
  built, the builder appends one paragraph for each piece of
  \<^verbatim>\<open>text.strip().split('\n\n')\<close> and skips none. The trimmed text is the pieces joined by
  \<^verbatim>\<open>'\n\n'\<close>, and no piece contains \<^verbatim>\<open>'\n\n'\<close>: the boundaries are the occurrences of
  these two characters and nothing else, so a text without two line feeds in a row, such
  as one whose middle line holds only spaces or tabs, is a single piece. A piece that is
  empty after trimming gives an empty paragraph, and there is always at least one
  paragraph: a text of whitespace only gives one empty paragraph. For a text that is not
  storable the loop ends with \<^verbatim>\<open>ValueError\<close> at the first piece that \<^verbatim>\<open>add_run\<close> refuses.
\<close>

theorem paragraph_for_every_segment:
  "py_split (py_strip report) blank_line = Inr (segments report) \<and>
   0 < length (segments report) \<and>
   py_join blank_line (segments report) = py_strip report \<and>
   (\<forall>s\<in>set (segments report). \<not> sublist blank_line s) \<and>
   (\<not> sublist blank_line (py_strip report) \<longrightarrow> segments report = [py_strip report]) \<and>
   (\<forall>d. build_document report = Inr d \<longrightarrow>
      length (paragraphs d) = length (segments report) \<and>
      map paragraph_text (paragraphs d) =
        map (\<lambda>s. read_back (py_strip s)) (segments report)) \<and>
   (storable report \<longrightarrow>
      paragraph_count report = Inr (length (segments report)) \<and>
      output_texts report = Inr (map (\<lambda>s. read_back (py_strip s)) (segments report))) \<and>
   (\<not> storable report \<longrightarrow> build_document report = Inl ValueError) \<and>
   (list_all xml_char report \<longrightarrow> storable report) \<and>
   (list_all py_isspace report \<longrightarrow> output_texts report = Inr [[]])"
proof -
  have ne: "blank_line \<noteq> []" by (simp add: blank_line_def)
  have 1: "py_split (py_strip report) blank_line = Inr (segments report)"
    by (simp add: py_split_def segments_def ne)
  have 2: "0 < length (segments report)"
    by (simp add: segments_def py_split_from_nonempty)
  have 3: "py_join blank_line (segments report) = py_strip report"
    by (simp add: segments_def py_join_split_from [OF ne])
  have 4: "\<forall>s\<in>set (segments report). \<not> sublist blank_line s"
    using segments_no_blank_line by blast
  have 5: "segments report = [py_strip report]"
    if "\<not> sublist blank_line (py_strip report)"
    using that by (simp add: segments_def py_split_from_no_sep [OF ne])
  have 6: "length (paragraphs d) = length (segments report) \<and>
      map paragraph_text (paragraphs d) =
        map (\<lambda>s. read_back (py_strip s)) (segments report)"
    if "build_document report = Inr d" for d
    using that
    by (auto simp: build_document_eq paragraph_text_def comp_def split: if_splits)
  have 7: "paragraph_count report = Inr (length (segments report)) \<and>
      output_texts report = Inr (map (\<lambda>s. read_back (py_strip s)) (segments report))"
    if "storable report"
    using that by (simp add: paragraph_count_eq output_texts_eq)
  have 8: "build_document report = Inl ValueError" if "\<not> storable report"
    using that by (simp add: build_document_eq)
  have 9: "output_texts report = Inr [[]]" if "list_all py_isspace report"
  proof -
    from that have e: "py_strip report = []"
      by (simp add: py_strip_empty_iff list_all_iff)
    have n: "py_strip [] = []" by (simp add: py_strip_def)
    have seg: "segments report = [[]]"
      by (simp add: segments_def e)
    have "storable report"
      by (simp add: storable_def seg n)
    then show ?thesis
      by (simp add: output_texts_eq seg n read_back_def)
  qed
  from 1 2 3 4 5 6 7 8 9 storable_xml_text show ?thesis by blast
qed

theorem paragraph_for_every_segment_witness:
  "\<not> sublist blank_line (py_strip (py_str ''A\<newline> \<newline>B'')) \<and>
   storable (py_str ''A\<newline> \<newline>B'') \<and>
   output_texts (py_str ''A\<newline> \<newline>B'') = Inr [py_str ''A\<newline> \<newline>B''] \<and>
   list_all py_isspace (py_str '' \<newline>\<newline> '') \<and>
   output_texts (py_str '' \<newline>\<newline> '') = Inr [[]] \<and>
   list_all xml_char (py_str ''A\<newline>\<newline> \<newline>\<newline>B'') \<and>
   output_texts (py_str ''A\<newline>\<newline> \<newline>\<newline>B'') = Inr [py_str ''A'', [], py_str ''B''] \<and>
   paragraph_count (py_str ''A\<newline>\<newline> \<newline>\<newline>B'') = Inr 3 \<and>
   \<not> storable (py_str ''A'' @ [0] @ py_str ''B\<newline>\<newline>C'') \<and>
   build_document (py_str ''A'' @ [0] @ py_str ''B\<newline>\<newline>C'') = Inl ValueError"
proof -
  let ?a = "py_str ''A\<newline> \<newline>B''"
  let ?w = "py_str '' \<newline>\<newline> ''"
  let ?t = "py_str ''A\<newline>\<newline> \<newline>\<newline>B''"
  let ?u = "py_str ''A'' @ [0] @ py_str ''B\<newline>\<newline>C''"
  have a1: "\<not> sublist blank_line (py_strip ?a)"
    by (simp add: script_defs sublist_Cons_right)
  have a2: "list_all xml_char ?a"
    by (simp add: script_defs)
  have a3: "py_strip ?a = ?a" "read_back ?a = ?a"
    by (simp_all add: script_defs)
  from paragraph_for_every_segment [of ?a] a1 a2
  have sa: "storable ?a" and "segments ?a = [py_strip ?a]"
    and "output_texts ?a = Inr (map (\<lambda>s. read_back (py_strip s)) (segments ?a))"
    by blast+
  then have oa: "output_texts ?a = Inr [?a]"
    by (simp add: a3)
  have w1: "list_all py_isspace ?w"
    by (simp add: script_defs)
  with paragraph_for_every_segment [of ?w] have ow: "output_texts ?w = Inr [[]]"
    by blast
  have t1: "list_all xml_char ?t"
    by (simp add: script_defs)
  have segt: "segments ?t = [py_str ''A'', py_str '' '', py_str ''B'']"
    by (simp add: script_defs)
  have rbt: "map (\<lambda>s. read_back (py_strip s)) (segments ?t) = [py_str ''A'', [], py_str ''B'']"
    by (simp add: segt) (simp add: script_defs)
  from paragraph_for_every_segment [of ?t] t1
  have "paragraph_count ?t = Inr (length (segments ?t))"
    and "output_texts ?t = Inr (map (\<lambda>s. read_back (py_strip s)) (segments ?t))"
    by blast+
  then have ot: "output_texts ?t = Inr [py_str ''A'', [], py_str ''B'']"
    and ct: "paragraph_count ?t = Inr 3"
    by (simp_all add: rbt) (simp add: segt)
  have segu: "segments ?u = [py_str ''A'' @ [0] @ py_str ''B'', py_str ''C'']"
    by (simp add: script_defs)
  have nu: "\<not> storable ?u"
    by (simp add: storable_def segu) (simp add: script_defs)
  with paragraph_for_every_segment [of ?u] have bu: "build_document ?u = Inl ValueError"
    by blast
  from a1 sa oa w1 ow t1 ot ct nu bu show ?thesis
    by (intro conjI)
qed

end
